theory Spec2Isabelle
  imports Complex_Main "HOL-Library.Word"
begin

section \<open>Python text as the two applications use it\<close>

text \<open>
  The repository holds two Streamlit applications, \<^verbatim>\<open>streamlit_app.py\<close> and
  \<^verbatim>\<open>IMPstreamlit_app.py\<close>. Their cache, validation and generation functions
  are embedded here. A Python \<^verbatim>\<open>str\<close> is a \<^typ>\<open>string\<close>; a \<^typ>\<open>char\<close> stands
  for the code point of the same number, so the texts of the model are the Python
  texts whose code points are below 256, and \<^term>\<open>length\<close> is Python's \<^verbatim>\<open>len\<close>.
  Python integers are \<^typ>\<open>int\<close>.
\<close>

subsection \<open>Formatting an integer in an f-string\<close>

definition digit_char :: "nat \<Rightarrow> char" where
  "digit_char d = char_of (48 + d)"

fun digits :: "nat \<Rightarrow> string" where
  "digits n = (if n < 10 then [digit_char n] else digits (n div 10) @ [digit_char (n mod 10)])"

declare digits.simps [simp del]

text \<open>\<^verbatim>\<open>f"{n}"\<close> for an \<^verbatim>\<open>int\<close>: decimal digits, a minus sign first when negative.\<close>

definition str_int :: "int \<Rightarrow> string" where
  "str_int i = (if i < 0 then CHR ''-'' # digits (nat (- i)) else digits (nat i))"

text \<open>Reading the digits back, used only to prove that formatting is injective.\<close>

definition digit_val :: "char \<Rightarrow> nat" where
  "digit_val c = of_char c - 48"

definition undigits :: "string \<Rightarrow> nat" where
  "undigits s = foldl (\<lambda>a c. 10 * a + digit_val c) 0 s"

subsection \<open>Whitespace, \<^verbatim>\<open>strip\<close>, \<^verbatim>\<open>split\<close>, \<^verbatim>\<open>lower\<close>, \<^verbatim>\<open>in\<close>\<close>

text \<open>
  \<^verbatim>\<open>str.isspace\<close> on one character. Below code point 256 Python's whitespace is
  tab to carriage return (9-13), the separators 28-31, the space (32), NEL (133) and
  the no-break space (160).
\<close>

definition isspace :: "char \<Rightarrow> bool" where
  "isspace c = (let n = (of_char c :: nat) in
     (9 \<le> n \<and> n \<le> 13) \<or> (28 \<le> n \<and> n \<le> 32) \<or> n = 133 \<or> n = 160)"

text \<open>\<^verbatim>\<open>s.strip()\<close>: leading and trailing whitespace removed.\<close>

definition py_strip :: "string \<Rightarrow> string" where
  "py_strip s = rev (dropWhile isspace (rev (dropWhile isspace s)))"

text \<open>
  \<^verbatim>\<open>s.split()\<close>: the maximal runs of characters that are not whitespace, in order.
  \<open>split_ws cur s\<close> scans \<open>s\<close> with the word read so far (reversed) in \<open>cur\<close>.
\<close>

fun split_ws :: "string \<Rightarrow> string \<Rightarrow> string list" where
  "split_ws cur [] = (if cur = [] then [] else [rev cur])"
| "split_ws cur (c # cs) =
     (if isspace c then (if cur = [] then split_ws [] cs else rev cur # split_ws [] cs)
      else split_ws (c # cur) cs)"

definition py_split :: "string \<Rightarrow> string list" where
  "py_split s = split_ws [] s"

text \<open>\<^verbatim>\<open>s.split(sep)\<close> for a one-character separator: empty pieces are kept.\<close>

fun split_on :: "char \<Rightarrow> string \<Rightarrow> string \<Rightarrow> string list" where
  "split_on sep cur [] = [rev cur]"
| "split_on sep cur (c # cs) =
     (if c = sep then rev cur # split_on sep [] cs else split_on sep (c # cur) cs)"

definition py_split_sep :: "char \<Rightarrow> string \<Rightarrow> string list" where
  "py_split_sep sep s = split_on sep [] s"

text \<open>
  \<^verbatim>\<open>s.lower()\<close>. Below code point 256 the characters with a different lower case are
  A-Z (65-90) and the capital letters 192-222 without the multiplication sign (215);
  each maps to the character 32 above it.
\<close>

definition lower_char :: "char \<Rightarrow> char" where
  "lower_char c = (let n = (of_char c :: nat) in
     if (65 \<le> n \<and> n \<le> 90) \<or> (192 \<le> n \<and> n \<le> 222 \<and> n \<noteq> 215) then char_of (n + 32) else c)"

definition py_lower :: "string \<Rightarrow> string" where
  "py_lower s = map lower_char s"

text \<open>\<^verbatim>\<open>needle in hay\<close> on strings: \<open>needle\<close> occurs as a contiguous substring.\<close>

fun startswith :: "string \<Rightarrow> string \<Rightarrow> bool" where
  "startswith s [] = True"
| "startswith [] (p # ps) = False"
| "startswith (c # cs) (p # ps) = (c = p \<and> startswith cs ps)"

fun py_in :: "string \<Rightarrow> string \<Rightarrow> bool" where
  "py_in needle [] = (needle = [])"
| "py_in needle (c # cs) = (startswith (c # cs) needle \<or> py_in needle cs)"

definition endswith :: "string \<Rightarrow> string \<Rightarrow> bool" where
  "endswith s suffix = startswith (rev s) (rev suffix)"


text \<open>\<^verbatim>\<open>os.path.join(a, b)\<close> on a POSIX system, for two components.\<close>

definition path_join :: "string \<Rightarrow> string \<Rightarrow> string" where
  "path_join a b =
     (if startswith b ''/'' then b
      else if a = [] \<or> endswith a ''/'' then a @ b
      else a @ ''/'' @ b)"

section \<open>Configuration and constants\<close>

definition POLLINATIONS_URL :: string where
  "POLLINATIONS_URL = ''https://image.pollinations.ai/prompt/''"

definition MAX_PROMPT_LENGTH :: int where
  "MAX_PROMPT_LENGTH = 500"

definition MIN_PROMPT_WORDS :: int where
  "MIN_PROMPT_WORDS = 3"

text \<open>\<^verbatim>\<open>BATCH_LIMIT\<close> exists in \<^verbatim>\<open>IMPstreamlit_app.py\<close> only.\<close>

definition BATCH_LIMIT :: int where
  "BATCH_LIMIT = 5"

text \<open>\<^verbatim>\<open>STYLE_OPTIONS\<close> of \<^verbatim>\<open>streamlit_app.py\<close>.\<close>

definition STYLE_OPTIONS :: "(string \<times> string) list" where
  "STYLE_OPTIONS =
    [(''photorealistic'', ''hyper-realistic, professional photography, high detail''),
     (''digital art'', ''digital painting, concept art, trending on artstation''),
     (''watercolor'', ''watercolor painting, soft brush strokes, artistic''),
     (''cyberpunk'', ''cyberpunk aesthetic, neon lights, futuristic''),
     (''portrait'', ''professional portrait, studio lighting, detailed face''),
     (''abstract'', ''abstract art, geometric shapes, modern art style''),
     (''cartoon'', ''cartoon style, animated, colorful and fun'')]"

text \<open>\<^verbatim>\<open>STYLE_OPTIONS\<close> of \<^verbatim>\<open>IMPstreamlit_app.py\<close>.\<close>

definition STYLE_OPTIONS_imp :: "(string \<times> string) list" where
  "STYLE_OPTIONS_imp =
    [(''photorealistic'', ''hyper-realistic, professional photography, high detail, 8k resolution''),
     (''digital art'', ''digital painting, concept art, trending on artstation, detailed''),
     (''watercolor'', ''watercolor painting, soft brush strokes, artistic, flowing colors''),
     (''cyberpunk'', ''cyberpunk aesthetic, neon lights, futuristic, dark atmosphere''),
     (''portrait'', ''professional portrait, studio lighting, detailed face, high quality''),
     (''abstract'', ''abstract art, geometric shapes, modern art style, colorful''),
     (''cartoon'', ''cartoon style, animated, colorful and fun, disney-style''),
     (''oil painting'', ''oil painting, classical art style, rich textures, masterpiece''),
     (''sketch'', ''pencil sketch, hand-drawn, artistic lines, detailed shading''),
     (''fantasy'', ''fantasy art, magical, mystical atmosphere, epic fantasy style'')]"

text \<open>\<^verbatim>\<open>d.get(key, default)\<close> on such a table.\<close>

definition dict_get :: "(string \<times> string) list \<Rightarrow> string \<Rightarrow> string \<Rightarrow> string" where
  "dict_get d k dflt = (case map_of d k of Some v \<Rightarrow> v | None \<Rightarrow> dflt)"

section \<open>\<^verbatim>\<open>validate_prompt\<close>\<close>

text \<open>
  The function is the same in both files. It returns the pair \<^verbatim>\<open>(is_valid, message)\<close>.
  The checks run in the order of the source: empty, too long, too short, blocked term.
\<close>

definition blocked_terms :: "string list" where
  "blocked_terms = [''nsfw'', ''explicit'', ''adult'', ''nude'']"

definition validate_prompt :: "string \<Rightarrow> bool \<times> string" where
  "validate_prompt prompt =
     (if prompt = [] \<or> py_strip prompt = [] then (False, ''Prompt cannot be empty'')
      else if int (length prompt) > MAX_PROMPT_LENGTH then
        (False, ''Prompt too long (max '' @ str_int MAX_PROMPT_LENGTH @ '' characters)'')
      else
        let word_count = int (length (py_split (py_strip prompt))) in
        if word_count < MIN_PROMPT_WORDS then
          (False, ''Prompt too short (minimum '' @ str_int MIN_PROMPT_WORDS @ '' words)'')
        else if list_ex (\<lambda>t. py_in t (py_lower prompt)) blocked_terms then
          (False, ''Prompt contains inappropriate content'')
        else (True, ''Valid prompt''))"

section \<open>The platform, the environment and the state\<close>

text \<open>
  The libraries the source calls are parameters of the model: \<^verbatim>\<open>hashlib\<close>, \<^verbatim>\<open>tempfile\<close>,
  \<^verbatim>\<open>requests.utils.quote\<close> and PIL. \<open>'i\<close> is the type of a PIL image.
  \<^item> \<open>sha256_hexdigest s\<close> is \<^verbatim>\<open>hashlib.sha256(s.encode()).hexdigest()\<close>;
  \<^item> \<open>gettempdir\<close> is \<^verbatim>\<open>tempfile.gettempdir()\<close>;
  \<^item> \<open>image_open b\<close> is \<^verbatim>\<open>Image.open\<close> on a file or buffer with content \<open>b\<close>: the
    image, or the text of the exception it raises;
  \<^item> \<open>png_bytes img\<close> is what \<^verbatim>\<open>img.save(target, "PNG")\<close> writes when it completes
    (PIL reads pixel data lazily; a save that fails for any reason, the image's own
    data included, is an outcome of the environment below);
  \<^item> the last four fields are \<^verbatim>\<open>ImageEnhance.Contrast(img).enhance(f)\<close>,
    \<^verbatim>\<open>ImageEnhance.Brightness(img).enhance(f)\<close> and \<^verbatim>\<open>img.filter\<close> with
    \<^verbatim>\<open>SHARPEN\<close> and \<^verbatim>\<open>SMOOTH\<close>.
\<close>

type_synonym bytes = "8 word list"

record 'i platform =
  sha256_hexdigest :: "string \<Rightarrow> string"
  gettempdir :: string
  url_quote :: "string \<Rightarrow> string"
  image_open :: "bytes \<Rightarrow> string + 'i"
  png_bytes :: "'i \<Rightarrow> bytes"
  enhance_contrast :: "real \<Rightarrow> 'i \<Rightarrow> 'i"
  enhance_brightness :: "real \<Rightarrow> 'i \<Rightarrow> 'i"
  filter_sharpen :: "'i \<Rightarrow> 'i"
  filter_smooth :: "'i \<Rightarrow> 'i"

text \<open>
  What the operating system and the network answer during one call of
  \<^verbatim>\<open>generate_image\<close>:
  \<^item> \<open>makedirs_error\<close>: the text of the \<^verbatim>\<open>OSError\<close> of \<^verbatim>\<open>os.makedirs\<close> when the
    directory is missing and cannot be created;
  \<^item> \<open>open_cached_fails\<close>: the cached file cannot be read, so \<^verbatim>\<open>Image.open\<close>
    raises whatever the file holds;
  \<^item> \<open>remove_error\<close>: the text of the \<^verbatim>\<open>OSError\<close> of \<^verbatim>\<open>os.remove\<close> when it fails;
  \<^item> \<open>http_get url\<close>: the outcome of \<^verbatim>\<open>requests.get(url, timeout=REQUEST_TIMEOUT)\<close>
    followed by \<^verbatim>\<open>raise_for_status()\<close>;
  \<^item> \<open>save_result\<close>: the outcome of \<^verbatim>\<open>img.save(cache_path, "PNG")\<close>;
  \<^item> \<open>time_start\<close>, \<open>time_end\<close>: the two readings of \<^verbatim>\<open>time.time()\<close>.
\<close>

datatype http_outcome =
    Timeout
  | RequestFailed string
  | HttpOk bytes

text \<open>
  \<open>SaveFailed left msg\<close>: \<^verbatim>\<open>img.save\<close> raises an exception with text \<open>msg\<close>. With
  \<open>left = None\<close> no file is left at the path; with \<open>left = Some k\<close> the file holds the
  first \<open>k\<close> bytes of the PNG encoding (a write that fails midway). Which of the two
  happens is the library's and the system's matter: the source calls \<^verbatim>\<open>img.save\<close> on the
  cache path itself and does nothing else about a failing write.
\<close>

datatype save_outcome =
    Saved
  | SaveFailed "nat option" string

record env =
  makedirs_error :: "string option"
  open_cached_fails :: bool
  remove_error :: "string option"
  http_get :: "string \<Rightarrow> http_outcome"
  save_result :: save_outcome
  time_start :: real
  time_end :: real

text \<open>
  The state the functions read and change: whether the cache directory exists, the
  regular files by path, and the counters of \<^verbatim>\<open>st.session_state.metrics\<close> that
  \<^verbatim>\<open>generate_image\<close> updates. Calls that only display something
  (\<^verbatim>\<open>set_current_code\<close>, \<^verbatim>\<open>st.warning\<close>, \<^verbatim>\<open>st.error\<close>, the progress bar) are
  not part of the model.
\<close>

record world =
  cache_dir_made :: bool
  files :: "string \<rightharpoonup> bytes"
  cache_hits :: int
  errors :: int
  total_time :: real

text \<open>An exception that leaves a function.\<close>

datatype exn = OSError string

text \<open>The tuple \<^verbatim>\<open>(img, source, elapsed, message)\<close> that \<^verbatim>\<open>generate_image\<close> returns.\<close>

type_synonym 'i envelope = "'i option \<times> string \<times> real \<times> string"

section \<open>\<^verbatim>\<open>get_cache_path\<close>\<close>

text \<open>
  The same in both files. \<open>cache_key\<close> and \<open>hash_key\<close> are its first two lines,
  \<open>cache_dir\<close> the third and \<open>cache_file\<close> the path it returns.
\<close>

definition cache_key :: "string \<Rightarrow> string \<Rightarrow> string \<Rightarrow> int \<Rightarrow> int \<Rightarrow> string" where
  "cache_key prompt negative style width height =
     prompt @ ''|'' @ negative @ ''|'' @ style @ ''|'' @ str_int width @ ''|'' @ str_int height"

definition hash_key :: "'i platform \<Rightarrow> string \<Rightarrow> string \<Rightarrow> string \<Rightarrow> int \<Rightarrow> int \<Rightarrow> string" where
  "hash_key P prompt negative style width height =
     sha256_hexdigest P (cache_key prompt negative style width height)"

definition cache_dir :: "'i platform \<Rightarrow> string" where
  "cache_dir P = path_join (gettempdir P) ''genai_cache''"

text \<open>
  \<^verbatim>\<open>os.makedirs(cache_dir, exist_ok=True)\<close> does nothing when the directory exists;
  otherwise it creates it or raises.
\<close>

definition cache_file :: "'i platform \<Rightarrow> string \<Rightarrow> string \<Rightarrow> string \<Rightarrow> int \<Rightarrow> int \<Rightarrow> string" where
  "cache_file P prompt negative style width height =
     path_join (cache_dir P) (hash_key P prompt negative style width height @ ''.png'')"

definition get_cache_path ::
  "'i platform \<Rightarrow> env \<Rightarrow> world \<Rightarrow> string \<Rightarrow> string \<Rightarrow> string \<Rightarrow> int \<Rightarrow> int \<Rightarrow> (exn + string) \<times> world" where
  "get_cache_path P E W prompt negative style width height =
     (if cache_dir_made W then (Inr (cache_file P prompt negative style width height), W)
      else (case makedirs_error E of
              Some msg \<Rightarrow> (Inl (OSError msg), W)
            | None \<Rightarrow>
                (Inr (cache_file P prompt negative style width height),
                 W\<lparr>cache_dir_made := True\<rparr>)))"


section \<open>\<^verbatim>\<open>generate_image\<close> of \<^verbatim>\<open>streamlit_app.py\<close>\<close>

text \<open>
  The cache check (lines 133-142). The file is there and opens: a hit. The file is there
  and \<^verbatim>\<open>Image.open\<close> raises: the handler removes the file, and an exception of
  \<^verbatim>\<open>os.remove\<close> leaves the function, since the handler has no \<^verbatim>\<open>try\<close> of its own.
\<close>

datatype 'i lookup =
    Hit 'i
  | Miss world
  | Raised exn

definition check_cache :: "'i platform \<Rightarrow> env \<Rightarrow> world \<Rightarrow> string \<Rightarrow> 'i lookup" where
  "check_cache P E W cache_path =
     (case files W cache_path of
        None \<Rightarrow> Miss W
      | Some content \<Rightarrow>
          (case (if open_cached_fails E then Inl [] else image_open P content) of
             Inr img \<Rightarrow> Hit img
           | Inl _ \<Rightarrow>
               (case remove_error E of
                  Some msg \<Rightarrow> Raised (OSError msg)
                | None \<Rightarrow> Miss (W\<lparr>files := (files W)(cache_path := None)\<rparr>))))"

text \<open>The prompt sent to the service and the URL of the request, over a style table.\<close>

definition full_prompt ::
  "(string \<times> string) list \<Rightarrow> string \<Rightarrow> string \<Rightarrow> string \<Rightarrow> string" where
  "full_prompt styles prompt negative style =
     (let fp = prompt @ '', '' @ dict_get styles style style
      in if negative \<noteq> [] then fp @ '', not '' @ negative else fp)"

definition request_url ::
  "'i platform \<Rightarrow> (string \<times> string) list \<Rightarrow> string \<Rightarrow> string \<Rightarrow> string \<Rightarrow> int \<Rightarrow> int \<Rightarrow> string" where
  "request_url P styles prompt negative style width height =
     POLLINATIONS_URL @ url_quote P (full_prompt styles prompt negative style)
       @ ''?width='' @ str_int width @ ''&height='' @ str_int height @ ''&enhance=true''"

text \<open>
  The \<^verbatim>\<open>try\<close> block with its three handlers (lines 147-187). Every exception raised
  inside it becomes an error tuple and adds one to the error counter. A save that
  fails leaves at the cache path what \<open>save_result\<close> says.
\<close>

definition fetch_and_store ::
  "'i platform \<Rightarrow> env \<Rightarrow> world \<Rightarrow> string \<Rightarrow> string \<Rightarrow> string \<Rightarrow> string \<Rightarrow> int \<Rightarrow> int
     \<Rightarrow> 'i envelope \<times> world" where
  "fetch_and_store P E W cache_path prompt negative style width height =
     (case http_get E (request_url P STYLE_OPTIONS prompt negative style width height) of
        Timeout \<Rightarrow>
          ((None, ''error'', 0, ''Request timed out''), W\<lparr>errors := errors W + 1\<rparr>)
      | RequestFailed msg \<Rightarrow>
          ((None, ''error'', 0, ''Network error: '' @ msg), W\<lparr>errors := errors W + 1\<rparr>)
      | HttpOk content \<Rightarrow>
          (case image_open P content of
             Inl msg \<Rightarrow>
               ((None, ''error'', 0, ''Unexpected error: '' @ msg), W\<lparr>errors := errors W + 1\<rparr>)
           | Inr img \<Rightarrow>
               (case save_result E of
                  SaveFailed left msg \<Rightarrow>
                    ((None, ''error'', 0, ''Unexpected error: '' @ msg),
                     W\<lparr>files := (files W)(cache_path := map_option (\<lambda>k. take k (png_bytes P img)) left),
                       errors := errors W + 1\<rparr>)
                | Saved \<Rightarrow>
                    ((Some img, ''api'', time_end E - time_start E, ''Generated successfully''),
                     W\<lparr>files := (files W)(cache_path \<mapsto> png_bytes P img)\<rparr>))))"

text \<open>
  The whole function. \<^verbatim>\<open>get_cache_path\<close> is called before any \<^verbatim>\<open>try\<close>, so its
  exception leaves \<^verbatim>\<open>generate_image\<close> too.
\<close>

definition generate_image ::
  "'i platform \<Rightarrow> env \<Rightarrow> world \<Rightarrow> string \<Rightarrow> string \<Rightarrow> string \<Rightarrow> int \<Rightarrow> int
     \<Rightarrow> (exn + 'i envelope) \<times> world" where
  "generate_image P E W prompt negative style width height =
     (case get_cache_path P E W prompt negative style width height of
        (Inl e, W1) \<Rightarrow> (Inl e, W1)
      | (Inr cache_path, W1) \<Rightarrow>
          (case check_cache P E W1 cache_path of
             Hit img \<Rightarrow>
               (Inr (Some img, ''cache'', 0, ''Loaded from cache''),
                W1\<lparr>cache_hits := cache_hits W1 + 1\<rparr>)
           | Raised e \<Rightarrow> (Inl e, W1)
           | Miss W2 \<Rightarrow>
               (case fetch_and_store P E W2 cache_path prompt negative style width height of
                  (r, W3) \<Rightarrow> (Inr r, W3))))"

section \<open>\<^verbatim>\<open>enhance_image\<close> and \<^verbatim>\<open>generate_image\<close> of \<^verbatim>\<open>IMPstreamlit_app.py\<close>\<close>

definition enhance_image :: "'i platform \<Rightarrow> 'i \<Rightarrow> string \<Rightarrow> 'i" where
  "enhance_image P img enhance_type =
     (if enhance_type = ''auto'' then
        enhance_brightness P (105 / 100) (enhance_contrast P (11 / 10) img)
      else if enhance_type = ''sharpen'' then filter_sharpen P img
      else if enhance_type = ''smooth'' then filter_smooth P img
      else img)"

text \<open>
  The \<^verbatim>\<open>try\<close> block of the second file (lines 195-236): its own style table, the
  optional enhancement before the save, and the time added to \<^verbatim>\<open>total_time\<close>.
\<close>

definition fetch_and_store_imp ::
  "'i platform \<Rightarrow> env \<Rightarrow> world \<Rightarrow> string \<Rightarrow> string \<Rightarrow> string \<Rightarrow> string \<Rightarrow> int \<Rightarrow> int \<Rightarrow> bool
     \<Rightarrow> 'i envelope \<times> world" where
  "fetch_and_store_imp P E W cache_path prompt negative style width height enhance =
     (case http_get E (request_url P STYLE_OPTIONS_imp prompt negative style width height) of
        Timeout \<Rightarrow>
          ((None, ''error'', 0, ''Request timed out''), W\<lparr>errors := errors W + 1\<rparr>)
      | RequestFailed msg \<Rightarrow>
          ((None, ''error'', 0, ''Network error: '' @ msg), W\<lparr>errors := errors W + 1\<rparr>)
      | HttpOk content \<Rightarrow>
          (case image_open P content of
             Inl msg \<Rightarrow>
               ((None, ''error'', 0, ''Unexpected error: '' @ msg), W\<lparr>errors := errors W + 1\<rparr>)
           | Inr img0 \<Rightarrow>
               (let img = (if enhance then enhance_image P img0 ''auto'' else img0) in
                case save_result E of
                  SaveFailed left msg \<Rightarrow>
                    ((None, ''error'', 0, ''Unexpected error: '' @ msg),
                     W\<lparr>files := (files W)(cache_path := map_option (\<lambda>k. take k (png_bytes P img)) left),
                       errors := errors W + 1\<rparr>)
                | Saved \<Rightarrow>
                    (let elapsed = time_end E - time_start E in
                     ((Some img, ''api'', elapsed, ''Generated successfully''),
                      W\<lparr>files := (files W)(cache_path \<mapsto> png_bytes P img),
                        total_time := total_time W + elapsed\<rparr>)))))"

definition generate_image_imp ::
  "'i platform \<Rightarrow> env \<Rightarrow> world \<Rightarrow> string \<Rightarrow> string \<Rightarrow> string \<Rightarrow> int \<Rightarrow> int \<Rightarrow> bool
     \<Rightarrow> (exn + 'i envelope) \<times> world" where
  "generate_image_imp P E W prompt negative style width height enhance =
     (case get_cache_path P E W prompt negative style width height of
        (Inl e, W1) \<Rightarrow> (Inl e, W1)
      | (Inr cache_path, W1) \<Rightarrow>
          (case check_cache P E W1 cache_path of
             Hit img \<Rightarrow>
               (Inr (Some img, ''cache'', 0, ''Loaded from cache''),
                W1\<lparr>cache_hits := cache_hits W1 + 1\<rparr>)
           | Raised e \<Rightarrow> (Inl e, W1)
           | Miss W2 \<Rightarrow>
               (case fetch_and_store_imp P E W2 cache_path prompt negative style width height enhance of
                  (r, W3) \<Rightarrow> (Inr r, W3))))"

section \<open>\<^verbatim>\<open>clear_cache\<close>\<close>

text \<open>
  The same in both files. \<open>listdir_result\<close> is what \<^verbatim>\<open>os.listdir\<close> answers (the names in
  the order the system gives them, or the text of its exception); \<open>remove_error_at\<close>
  says for which path \<^verbatim>\<open>os.remove\<close> raises. An exception ends the loop and the
  count so far is returned.
\<close>

record clear_env =
  listdir_result :: "string + string list"
  remove_error_at :: "string \<Rightarrow> string option"

fun clear_loop :: "clear_env \<Rightarrow> string \<Rightarrow> string list \<Rightarrow> world \<Rightarrow> int \<Rightarrow> int \<times> world" where
  "clear_loop C dir [] W files_deleted = (files_deleted, W)"
| "clear_loop C dir (filename # rest) W files_deleted =
     (let file_path = path_join dir filename in
      if files W file_path \<noteq> None \<and> endswith filename ''.png'' then
        (case remove_error_at C file_path of
           Some msg \<Rightarrow> (files_deleted, W)
         | None \<Rightarrow>
             clear_loop C dir rest (W\<lparr>files := (files W)(file_path := None)\<rparr>) (files_deleted + 1))
      else clear_loop C dir rest W files_deleted)"

definition clear_cache :: "'i platform \<Rightarrow> clear_env \<Rightarrow> world \<Rightarrow> int \<times> world" where
  "clear_cache P C W =
     (if \<not> cache_dir_made W then (0, W)
      else (case listdir_result C of
              Inl msg \<Rightarrow> (0, W)
            | Inr names \<Rightarrow> clear_loop C (cache_dir P) names W 0))"

section \<open>Batch generation of \<^verbatim>\<open>IMPstreamlit_app.py\<close>\<close>

text \<open>
  \<^verbatim>\<open>render_batch_generation\<close> (lines 494-517): the text area's lines, stripped, the empty
  ones dropped, cut to \<^verbatim>\<open>BATCH_LIMIT\<close>; the tuple is returned when the button was
  clicked and a prompt is left.
\<close>

definition read_batch_prompts :: "string \<Rightarrow> string list" where
  "read_batch_prompts text_area =
     (let batch_prompts = py_split_sep (CHR 0x0A) text_area;
          batch_prompts = map py_strip (filter (\<lambda>p. py_strip p \<noteq> []) batch_prompts)
      in if int (length batch_prompts) > BATCH_LIMIT then take (nat BATCH_LIMIT) batch_prompts
         else batch_prompts)"

definition render_batch_generation ::
  "string \<Rightarrow> string \<Rightarrow> int \<Rightarrow> int \<Rightarrow> bool \<Rightarrow> (string list \<times> string \<times> int \<times> int) option" where
  "render_batch_generation text_area batch_style batch_width batch_height clicked =
     (let batch_prompts = read_batch_prompts text_area in
      if clicked \<and> batch_prompts \<noteq> [] then Some (batch_prompts, batch_style, batch_width, batch_height)
      else None)"

text \<open>
  An entry of \<^verbatim>\<open>batch_results\<close>: the prompt with the PNG bytes of the image, or the
  prompt with the error message.
\<close>

datatype batch_entry =
    BatchSuccess string bytes
  | BatchFailure string string

fun entry_prompt :: "batch_entry \<Rightarrow> string" where
  "entry_prompt (BatchSuccess p b) = p"
| "entry_prompt (BatchFailure p m) = p"

text \<open>
  The loop of lines 792-813. \<open>Es i\<close> is the environment of the call for the prompt with
  index \<open>i\<close>. The loop has no \<^verbatim>\<open>try\<close>: an exception of \<^verbatim>\<open>generate_image\<close> ends it and
  \<^verbatim>\<open>batch_results\<close> is lost.
\<close>

fun batch_loop ::
  "'i platform \<Rightarrow> (nat \<Rightarrow> env) \<Rightarrow> string \<Rightarrow> int \<Rightarrow> int \<Rightarrow> nat \<Rightarrow> string list
     \<Rightarrow> batch_entry list \<Rightarrow> world \<Rightarrow> (exn + batch_entry list) \<times> world" where
  "batch_loop P Es batch_style batch_width batch_height i [] batch_results W =
     (Inr batch_results, W)"
| "batch_loop P Es batch_style batch_width batch_height i (batch_prompt # rest) batch_results W =
     (case generate_image_imp P (Es i) W batch_prompt [] batch_style batch_width batch_height False of
        (Inl e, W') \<Rightarrow> (Inl e, W')
      | (Inr (img, source, elapsed, message), W') \<Rightarrow>
          (case img of
             Some im \<Rightarrow>
               batch_loop P Es batch_style batch_width batch_height (Suc i) rest
                 (batch_results @ [BatchSuccess batch_prompt (png_bytes P im)]) W'
           | None \<Rightarrow>
               batch_loop P Es batch_style batch_width batch_height (Suc i) rest
                 (batch_results @ [BatchFailure batch_prompt message]) W'))"

definition batch_tab ::
  "'i platform \<Rightarrow> (nat \<Rightarrow> env) \<Rightarrow> world \<Rightarrow> string \<Rightarrow> string \<Rightarrow> int \<Rightarrow> int \<Rightarrow> bool
     \<Rightarrow> (exn + batch_entry list) option \<times> world" where
  "batch_tab P Es W text_area batch_style batch_width batch_height clicked =
     (case render_batch_generation text_area batch_style batch_width batch_height clicked of
        None \<Rightarrow> (None, W)
      | Some (batch_prompts, bs, bw, bh) \<Rightarrow>
          (case batch_loop P Es bs bw bh 0 batch_prompts [] W of
             (r, W') \<Rightarrow> (Some r, W')))"


section \<open>The words of the specification\<close>

text \<open>
  The notions the specification uses for validation, written without the Python string
  functions, to compare \<open>validate_prompt\<close> with:
  \<^item> a text is whitespace-only when every character is whitespace (the empty text too);
  \<^item> a word starts at every position that holds a character that is not whitespace and
    is the first position or follows a whitespace character;
  \<^item> a casing of a lower-case term has, at every position, the term's letter or its
    capital (the character 32 below);
  \<^item> a text contains a term in some casing when a casing of it occurs in the text.
\<close>

definition whitespace_only :: "string \<Rightarrow> bool" where
  "whitespace_only s = list_all isspace s"

definition count_words :: "string \<Rightarrow> nat" where
  "count_words s =
     length (filter (\<lambda>i. \<not> isspace (s ! i) \<and> (i = 0 \<or> isspace (s ! (i - 1)))) [0..<length s])"

definition capital_of :: "char \<Rightarrow> char" where
  "capital_of c = char_of ((of_char c :: nat) - 32)"

definition casing_of :: "string \<Rightarrow> string \<Rightarrow> bool" where
  "casing_of t term = list_all2 (\<lambda>c d. c = d \<or> c = capital_of d) t term"

definition occurs_in_some_casing :: "string \<Rightarrow> string \<Rightarrow> bool" where
  "occurs_in_some_casing term s = (\<exists>u t v. s = u @ t @ v \<and> casing_of t term)"

definition has_blocked_term :: "string \<Rightarrow> bool" where
  "has_blocked_term s = list_ex (\<lambda>term. occurs_in_some_casing term s) blocked_terms"

text \<open>The number of word starts, by recursion; \<open>prev\<close> says a word may start here.\<close>

fun word_starts :: "bool \<Rightarrow> string \<Rightarrow> nat" where
  "word_starts prev [] = 0"
| "word_starts prev (c # cs) =
     (if \<not> isspace c \<and> prev then 1 else 0) + word_starts (isspace c) cs"


section \<open>A small platform to run the definitions on\<close>

text \<open>
  Concrete stand-ins for the libraries, used where a statement is evaluated on an input.
  The digest stand-in writes every character as two hexadecimal digits, so it is
  injective. An image is its pixel data; its PNG encoding is the PNG signature's first
  four bytes followed by the data, and a file opens as an image when it starts with
  them. The enhancement operations leave the data unchanged.
\<close>

definition hex_char :: "nat \<Rightarrow> char" where
  "hex_char d = (if d < 10 then char_of (48 + d) else char_of (87 + d))"

definition hex_text :: "string \<Rightarrow> string" where
  "hex_text s = concat (map (\<lambda>c. [hex_char ((of_char c :: nat) div 16), hex_char ((of_char c :: nat) mod 16)]) s)"

definition png_magic :: bytes where
  "png_magic = [137, 80, 78, 71]"

definition demo_open :: "bytes \<Rightarrow> string + bytes" where
  "demo_open b = (if take 4 b = png_magic then Inr (drop 4 b) else Inl ''cannot identify image file'')"

definition demo_platform :: "bytes platform" where
  "demo_platform =
     \<lparr>sha256_hexdigest = hex_text,
      gettempdir = ''/tmp'',
      url_quote = (\<lambda>s. s),
      image_open = demo_open,
      png_bytes = (\<lambda>i. png_magic @ i),
      enhance_contrast = (\<lambda>f i. i),
      enhance_brightness = (\<lambda>f i. i),
      filter_sharpen = (\<lambda>i. i),
      filter_smooth = (\<lambda>i. i)\<rparr>"


text \<open>The terms whose characters are all lower-case letters a-z.\<close>

definition lower_letters :: "string \<Rightarrow> bool" where
  "lower_letters t = list_all (\<lambda>d. 97 \<le> (of_char d :: nat) \<and> (of_char d :: nat) \<le> 122) t"

section \<open>Sequences of operations on the store\<close>

text \<open>
  An operation is a call of \<open>generate_image\<close> of either file or of \<open>clear_cache\<close>, with
  the environment it meets. Both applications use the same cache directory. A call
  that raises leaves the state it reached behind, and the next call starts from it.
\<close>

datatype op =
    Generate env string string string int int
  | GenerateImp env string string string int int bool
  | ClearCache clear_env

fun run_op :: "'i platform \<Rightarrow> op \<Rightarrow> world \<Rightarrow> world" where
  "run_op P (Generate E prompt negative style width height) W =
     snd (generate_image P E W prompt negative style width height)"
| "run_op P (GenerateImp E prompt negative style width height enhance) W =
     snd (generate_image_imp P E W prompt negative style width height enhance)"
| "run_op P (ClearCache C) W = snd (clear_cache P C W)"

fun run_ops :: "'i platform \<Rightarrow> op list \<Rightarrow> world \<Rightarrow> world" where
  "run_ops P [] W = W"
| "run_ops P (x # xs) W = run_ops P xs (run_op P x W)"

text \<open>
  A file content decodes when \<^verbatim>\<open>Image.open\<close> accepts it; a store is valid when every
  file in it decodes; the PNG encoder is sound when everything it writes decodes.
\<close>

definition decodes :: "'i platform \<Rightarrow> bytes \<Rightarrow> bool" where
  "decodes P b = (case image_open P b of Inr img \<Rightarrow> True | Inl msg \<Rightarrow> False)"

definition store_valid :: "'i platform \<Rightarrow> world \<Rightarrow> bool" where
  "store_valid P W = (\<forall>path b. files W path = Some b \<longrightarrow> decodes P b)"

definition png_sound :: "'i platform \<Rightarrow> bool" where
  "png_sound P = (\<forall>img. decodes P (png_bytes P img))"

text \<open>The save of an operation completes or leaves no file: it leaves no partial file.\<close>

definition save_is_atomic :: "env \<Rightarrow> bool" where
  "save_is_atomic E =
     (case save_result E of
        Saved \<Rightarrow> True
      | SaveFailed left msg \<Rightarrow> left = None)"

fun op_save_is_atomic :: "op \<Rightarrow> bool" where
  "op_save_is_atomic (Generate E prompt negative style width height) = save_is_atomic E"
| "op_save_is_atomic (GenerateImp E prompt negative style width height enhance) = save_is_atomic E"
| "op_save_is_atomic (ClearCache C) = True"


section \<open>Concrete environments and states\<close>

text \<open>
  \<open>empty_world\<close>: nothing cached yet. \<open>demo_env\<close>: every system call succeeds and the
  service answers with an image. \<open>fox_file\<close> is the cache path of the request used in
  the examples, and \<open>world_corrupt\<close> holds an empty file there.
\<close>

definition empty_world :: world where
  "empty_world =
     \<lparr>cache_dir_made = False, files = Map.empty, cache_hits = 0, errors = 0, total_time = 0\<rparr>"

definition demo_image :: bytes where
  "demo_image = [1, 2, 3]"

definition demo_env :: env where
  "demo_env =
     \<lparr>makedirs_error = None,
      open_cached_fails = False,
      remove_error = None,
      http_get = (\<lambda>url. HttpOk (png_magic @ demo_image)),
      save_result = Saved,
      time_start = 10,
      time_end = 12\<rparr>"

definition fox_file :: string where
  "fox_file = cache_file demo_platform ''a red fox'' [] ''cartoon'' 512 512"

definition world_corrupt :: world where
  "world_corrupt = empty_world\<lparr>cache_dir_made := True, files := [fox_file \<mapsto> []]\<rparr>"

text \<open>Two contents of the batch text area: two prompts, and seven with a blank line.\<close>

definition two_prompts :: string where
  "two_prompts = ''a red fox'' @ [CHR 0x0A] @ ''a blue bird''"


section \<open>Facts about the text functions\<close>

subsection \<open>Formatting integers is injective\<close>

lemma digit_val_digit_char: "d < 10 \<Longrightarrow> digit_val (digit_char d) = d"
  by (simp add: digit_val_def digit_char_def)

lemma undigits_digits: "undigits (digits n) = n"
proof (induction n rule: digits.induct)
  case (1 n)
  show ?case
  proof (cases "n < 10")
    case True
    then show ?thesis
      by (subst digits.simps) (simp add: undigits_def digit_val_digit_char)
  next
    case False
    with 1 have "undigits (digits (n div 10)) = n div 10" by simp
    with False show ?thesis
      by (subst digits.simps) (simp add: undigits_def digit_val_digit_char)
  qed
qed

lemma digits_inj: "digits m = digits n \<Longrightarrow> m = n"
  by (metis undigits_digits)

lemma digits_chars: "c \<in> set (digits n) \<Longrightarrow> (of_char c :: nat) \<in> {48..<58}"
proof (induction n rule: digits.induct)
  case (1 n)
  from "1.prems" show ?case
    by (subst (asm) digits.simps) (auto split: if_splits dest: "1.IH" simp: digit_char_def)
qed

lemma str_int_inj: "str_int i = str_int j \<Longrightarrow> i = j"
proof -
  assume e: "str_int i = str_int j"
  have nm: "CHR ''-'' \<notin> set (digits n)" for n
    using digits_chars [of "CHR ''-''" n] by auto
  show ?thesis
  proof (cases "i < 0"; cases "j < 0")
    assume "i < 0" "j < 0"
    with e have "digits (nat (- i)) = digits (nat (- j))" by (simp add: str_int_def)
    then have "nat (- i) = nat (- j)" by (rule digits_inj)
    with \<open>i < 0\<close> \<open>j < 0\<close> show ?thesis by simp
  next
    assume "i < 0" "\<not> j < 0"
    with e have "CHR ''-'' # digits (nat (- i)) = digits (nat j)" by (simp add: str_int_def)
    then have "CHR ''-'' \<in> set (digits (nat j))" by (metis list.set_intros(1))
    with nm show ?thesis by simp
  next
    assume "\<not> i < 0" "j < 0"
    with e have "digits (nat i) = CHR ''-'' # digits (nat (- j))" by (simp add: str_int_def)
    then have "CHR ''-'' \<in> set (digits (nat i))" by (metis list.set_intros(1))
    with nm show ?thesis by simp
  next
    assume "\<not> i < 0" "\<not> j < 0"
    with e have "digits (nat i) = digits (nat j)" by (simp add: str_int_def)
    then have "nat i = nat j" by (rule digits_inj)
    with \<open>\<not> i < 0\<close> \<open>\<not> j < 0\<close> show ?thesis by simp
  qed
qed

lemma str_int_no_pipe: "CHR ''|'' \<notin> set (str_int i)"
  using digits_chars [of "CHR ''|''"] by (auto simp: str_int_def)

subsection \<open>Splitting at a separator\<close>

lemma split_at_first:
  "c \<notin> set xs \<Longrightarrow> c \<notin> set xs' \<Longrightarrow> xs @ c # ys = xs' @ c # ys' \<Longrightarrow> xs = xs' \<and> ys = ys'"
proof (induction xs arbitrary: xs')
  case Nil
  then show ?case by (cases xs') auto
next
  case (Cons x xs)
  then show ?case by (cases xs') auto
qed

lemma split_at_last:
  assumes "c \<notin> set ys" "c \<notin> set ys'" "xs @ c # ys = xs' @ c # ys'"
  shows "xs = xs' \<and> ys = ys'"
proof -
  from assms(3) have "rev ys @ c # rev xs = rev ys' @ c # rev xs'"
    by (metis rev_append rev.simps(2) append_assoc append_Cons append_Nil)
  with assms(1,2) have "rev ys = rev ys' \<and> rev xs = rev xs'"
    by (intro split_at_first) auto
  then show ?thesis by simp
qed

subsection \<open>The cache key\<close>

lemma cache_key_inj:
  assumes np: "CHR ''|'' \<notin> set p" "CHR ''|'' \<notin> set p'"
    and nn: "CHR ''|'' \<notin> set n" "CHR ''|'' \<notin> set n'"
    and eq: "cache_key p n s w h = cache_key p' n' s' w' h'"
  shows "p = p' \<and> n = n' \<and> s = s' \<and> w = w' \<and> h = h'"
proof -
  from eq have e1: "p @ CHR ''|'' # (n @ ''|'' @ s @ ''|'' @ str_int w @ ''|'' @ str_int h)
      = p' @ CHR ''|'' # (n' @ ''|'' @ s' @ ''|'' @ str_int w' @ ''|'' @ str_int h')"
    by (simp add: cache_key_def)
  from split_at_first [OF np e1] have pp: "p = p'"
    and e2: "n @ CHR ''|'' # (s @ ''|'' @ str_int w @ ''|'' @ str_int h)
      = n' @ CHR ''|'' # (s' @ ''|'' @ str_int w' @ ''|'' @ str_int h')"
    by simp_all
  from split_at_first [OF nn e2] have nn': "n = n'"
    and e3: "(s @ ''|'' @ str_int w) @ CHR ''|'' # str_int h
      = (s' @ ''|'' @ str_int w') @ CHR ''|'' # str_int h'"
    by simp_all
  from split_at_last [OF str_int_no_pipe str_int_no_pipe e3]
  have hh: "str_int h = str_int h'" and e4: "s @ CHR ''|'' # str_int w = s' @ CHR ''|'' # str_int w'"
    by simp_all
  from split_at_last [OF str_int_no_pipe str_int_no_pipe e4]
  have ss: "s = s'" and ww: "str_int w = str_int w'" by simp_all
  from pp nn' ss str_int_inj [OF ww] str_int_inj [OF hh] show ?thesis by simp
qed


subsection \<open>The digest stand-in is injective\<close>

lemma hex_char_inj: "a < 16 \<Longrightarrow> b < 16 \<Longrightarrow> hex_char a = hex_char b \<Longrightarrow> a = b"
  by (auto simp: hex_char_def split: if_splits)

lemma hex_text_inj: "hex_text xs = hex_text ys \<Longrightarrow> xs = ys"
proof (induction xs arbitrary: ys)
  case Nil
  then show ?case by (cases ys) (auto simp: hex_text_def)
next
  case (Cons x xs)
  then obtain y ys' where ys: "ys = y # ys'" by (cases ys) (auto simp: hex_text_def)
  from Cons.prems ys
  have h1: "hex_char ((of_char x :: nat) div 16) = hex_char ((of_char y :: nat) div 16)"
    and h2: "hex_char ((of_char x :: nat) mod 16) = hex_char ((of_char y :: nat) mod 16)"
    and r: "hex_text xs = hex_text ys'"
    by (simp_all add: hex_text_def)
  have bx: "(of_char x :: nat) div 16 < 16" "(of_char y :: nat) div 16 < 16"
    using nat_of_char_less_256 [of x] nat_of_char_less_256 [of y]
    by (simp_all add: less_mult_imp_div_less)
  from hex_char_inj [OF bx h1] have d: "(of_char x :: nat) div 16 = of_char y div 16" .
  from hex_char_inj [OF _ _ h2] have m: "(of_char x :: nat) mod 16 = of_char y mod 16" by simp
  from d m have "(of_char x :: nat) = of_char y"
    by (metis div_mult_mod_eq)
  then have "x = y" by simp
  with Cons.IH [OF r] ys show ?case by simp
qed

lemma demo_digest_inj: "inj (sha256_hexdigest demo_platform)"
  by (rule injI) (simp add: demo_platform_def hex_text_inj)


subsection \<open>\<^verbatim>\<open>strip\<close>, \<^verbatim>\<open>split\<close> and the number of words\<close>

lemma py_strip_Nil_iff: "py_strip s = [] \<longleftrightarrow> whitespace_only s"
proof
  assume "py_strip s = []"
  then have a: "\<forall>x\<in>set (dropWhile isspace s). isspace x"
    by (simp add: py_strip_def dropWhile_eq_Nil_conv)
  have "dropWhile isspace s = []"
  proof (rule ccontr)
    assume ne: "dropWhile isspace s \<noteq> []"
    then have "\<not> isspace (hd (dropWhile isspace s))" by (rule hd_dropWhile)
    moreover from ne have "hd (dropWhile isspace s) \<in> set (dropWhile isspace s)" by simp
    ultimately show False using a by blast
  qed
  then show "whitespace_only s"
    by (simp add: whitespace_only_def dropWhile_eq_Nil_conv list_all_iff)
next
  assume "whitespace_only s"
  then have "dropWhile isspace s = []"
    by (simp add: whitespace_only_def dropWhile_eq_Nil_conv list_all_iff)
  then show "py_strip s = []" by (simp only: py_strip_def rev.simps dropWhile.simps)
qed

lemma split_ws_spaces:
  "list_all isspace t \<Longrightarrow> split_ws cur t = (if cur = [] then [] else [rev cur])"
  by (induction t arbitrary: cur) auto

lemma split_ws_append_spaces:
  "list_all isspace t \<Longrightarrow> split_ws cur (s @ t) = split_ws cur s"
  by (induction s arbitrary: cur) (auto simp: split_ws_spaces)

lemma split_ws_dropWhile: "split_ws [] (dropWhile isspace s) = split_ws [] s"
  by (induction s) auto

lemma py_split_strip: "py_split (py_strip s) = py_split s"
proof -
  let ?d = "dropWhile isspace s"
  have "?d = rev (takeWhile isspace (rev ?d) @ dropWhile isspace (rev ?d))"
    by (simp only: takeWhile_dropWhile_id rev_rev_ident)
  then have d: "?d = py_strip s @ rev (takeWhile isspace (rev ?d))"
    by (simp only: py_strip_def rev_append)
  have sp: "list_all isspace (rev (takeWhile isspace (rev ?d)))"
    by (simp add: list_all_iff) (metis set_takeWhileD)
  have "split_ws [] (py_strip s) = split_ws [] (py_strip s @ rev (takeWhile isspace (rev ?d)))"
    using split_ws_append_spaces [OF sp] by simp
  also have "\<dots> = split_ws [] ?d" using d by simp
  also have "\<dots> = split_ws [] s" by (rule split_ws_dropWhile)
  finally show ?thesis by (simp add: py_split_def)
qed

lemma length_split_ws:
  "length (split_ws cur s) = (if cur = [] then word_starts True s else 1 + word_starts False s)"
  by (induction s arbitrary: cur) auto

lemma word_starts_filter:
  "word_starts prev s =
     length (filter (\<lambda>i. \<not> isspace (s ! i) \<and> (if i = 0 then prev else isspace (s ! (i - 1))))
       [0..<length s])"
proof (induction s arbitrary: prev)
  case Nil
  show ?case by simp
next
  case (Cons c cs)
  have up: "[0..<length (c # cs)] = 0 # map Suc [0..<length cs]"
    by (simp add: upt_conv_Cons map_Suc_upt del: upt_Suc)
  have tl: "length (filter (\<lambda>i. \<not> isspace ((c # cs) ! i) \<and>
              (if i = 0 then prev else isspace ((c # cs) ! (i - 1)))) (map Suc [0..<length cs]))
      = length (filter (\<lambda>j. \<not> isspace (cs ! j) \<and>
              (if j = 0 then isspace c else isspace (cs ! (j - 1)))) [0..<length cs])"
  proof -
    have "filter ((\<lambda>i. \<not> isspace ((c # cs) ! i) \<and>
              (if i = 0 then prev else isspace ((c # cs) ! (i - 1)))) \<circ> Suc) [0..<length cs]
        = filter (\<lambda>j. \<not> isspace (cs ! j) \<and>
              (if j = 0 then isspace c else isspace (cs ! (j - 1)))) [0..<length cs]"
    proof (rule filter_cong [OF refl])
      fix j
      show "((\<lambda>i. \<not> isspace ((c # cs) ! i) \<and>
              (if i = 0 then prev else isspace ((c # cs) ! (i - 1)))) \<circ> Suc) j
          = (\<not> isspace (cs ! j) \<and> (if j = 0 then isspace c else isspace (cs ! (j - 1))))"
        by (cases j) simp_all
    qed
    then show ?thesis by (simp only: filter_map length_map)
  qed
  have hd0: "filter (\<lambda>i. \<not> isspace ((c # cs) ! i) \<and>
              (if i = 0 then prev else isspace ((c # cs) ! (i - 1)))) [0]
      = (if \<not> isspace c \<and> prev then [0] else [])"
    by simp
  have "length (filter (\<lambda>i. \<not> isspace ((c # cs) ! i) \<and>
              (if i = 0 then prev else isspace ((c # cs) ! (i - 1)))) [0..<length (c # cs)])
      = length (filter (\<lambda>i. \<not> isspace ((c # cs) ! i) \<and>
              (if i = 0 then prev else isspace ((c # cs) ! (i - 1)))) ([0] @ map Suc [0..<length cs]))"
    by (simp only: up append_Cons append_Nil)
  also have "\<dots> = (if \<not> isspace c \<and> prev then 1 else 0) + word_starts (isspace c) cs"
    by (simp only: filter_append length_append hd0 tl Cons.IH [of "isspace c", symmetric])
      simp
  finally show ?case by simp
qed

lemma count_words_starts: "count_words s = word_starts True s"
  unfolding count_words_def word_starts_filter
  by (rule arg_cong [where f = length], rule filter_cong) auto

lemma word_count_eq: "length (py_split (py_strip s)) = count_words s"
  unfolding py_split_strip by (simp add: py_split_def length_split_ws count_words_starts)

lemma startswith_iff: "startswith s p \<longleftrightarrow> (\<exists>v. s = p @ v)"
  by (induction s p rule: startswith.induct) auto

lemma py_in_iff: "py_in needle hay \<longleftrightarrow> (\<exists>u v. hay = u @ needle @ v)"
proof (induction hay)
  case Nil
  show ?case by auto
next
  case (Cons c cs)
  show ?case
  proof
    assume "py_in needle (c # cs)"
    then consider "startswith (c # cs) needle" | "py_in needle cs" by auto
    then show "\<exists>u v. c # cs = u @ needle @ v"
    proof cases
      case 1
      then obtain v where "c # cs = needle @ v" by (auto simp: startswith_iff)
      then have "c # cs = [] @ needle @ v" by simp
      then show ?thesis by blast
    next
      case 2
      with Cons obtain u v where "cs = u @ needle @ v" by auto
      then have "c # cs = (c # u) @ needle @ v" by simp
      then show ?thesis by blast
    qed
  next
    assume "\<exists>u v. c # cs = u @ needle @ v"
    then obtain u v where e: "c # cs = u @ needle @ v" by blast
    show "py_in needle (c # cs)"
    proof (cases u)
      case Nil
      with e have "startswith (c # cs) needle" by (auto simp: startswith_iff)
      then show ?thesis by simp
    next
      case (Cons a u')
      with e have "cs = u' @ needle @ v" by simp
      with Cons.IH have "py_in needle cs" by blast
      then show ?thesis by simp
    qed
  qed
qed

subsection \<open>\<^verbatim>\<open>lower\<close>, \<^verbatim>\<open>in\<close> and the casings of a term\<close>

lemma of_char_lower_char:
  "(of_char (lower_char c) :: nat) =
     (if (65 \<le> (of_char c :: nat) \<and> (of_char c :: nat) \<le> 90)
         \<or> (192 \<le> (of_char c :: nat) \<and> (of_char c :: nat) \<le> 222 \<and> (of_char c :: nat) \<noteq> 215)
      then of_char c + 32 else of_char c)"
  by (simp add: lower_char_def Let_def)

lemma of_char_capital_of:
  "(of_char d :: nat) \<le> 122 \<Longrightarrow> (of_char (capital_of d) :: nat) = of_char d - 32"
  by (simp add: capital_of_def)

lemma lower_char_eq_iff:
  assumes "97 \<le> (of_char d :: nat)" "(of_char d :: nat) \<le> 122"
  shows "lower_char c = d \<longleftrightarrow> (c = d \<or> c = capital_of d)"
proof -
  have a: "lower_char c = d \<longleftrightarrow> (of_char (lower_char c) :: nat) = of_char d" by simp
  have b: "c = d \<longleftrightarrow> (of_char c :: nat) = of_char d" by simp
  have e: "c = capital_of d \<longleftrightarrow> (of_char c :: nat) = of_char d - 32"
    using of_char_capital_of [OF assms(2)] by (metis of_char_eq_iff)
  show ?thesis
    unfolding a b e of_char_lower_char using assms by auto
qed

lemma py_lower_eq_casing:
  "lower_letters term \<Longrightarrow> py_lower t = term \<longleftrightarrow> casing_of t term"
proof (induction t arbitrary: "term")
  case Nil
  show ?case by (auto simp: py_lower_def casing_of_def)
next
  case (Cons c cs)
  show ?case
  proof (cases "term")
    case Nil
    then show ?thesis by (simp add: py_lower_def casing_of_def)
  next
    case (Cons d ds)
    with Cons.prems have d: "97 \<le> (of_char d :: nat)" "(of_char d :: nat) \<le> 122"
      and ds: "lower_letters ds" by (simp_all add: lower_letters_def)
    from Cons.IH [OF ds] lower_char_eq_iff [OF d, of c] Cons show ?thesis
      by (simp add: py_lower_def casing_of_def)
  qed
qed

lemma py_in_lower_iff:
  assumes "lower_letters term"
  shows "py_in term (py_lower s) \<longleftrightarrow> occurs_in_some_casing term s"
proof
  assume "py_in term (py_lower s)"
  then obtain u v where "map lower_char s = u @ term @ v"
    by (auto simp: py_in_iff py_lower_def)
  then obtain u' r where s1: "s = u' @ r" and r: "term @ v = map lower_char r"
    unfolding map_eq_append_conv by blast
  from r obtain t' v' where s2: "r = t' @ v'" and t: "map lower_char t' = term"
    unfolding append_eq_map_conv by blast
  from s1 s2 have s: "s = u' @ t' @ v'" by simp
  from t have "casing_of t' term"
    using py_lower_eq_casing [OF assms, of t'] by (simp add: py_lower_def)
  with s show "occurs_in_some_casing term s" by (auto simp: occurs_in_some_casing_def)
next
  assume "occurs_in_some_casing term s"
  then obtain u t v where s: "s = u @ t @ v" and c: "casing_of t term"
    by (auto simp: occurs_in_some_casing_def)
  from c have "py_lower t = term" using py_lower_eq_casing [OF assms] by simp
  with s have "py_lower s = py_lower u @ term @ py_lower v" by (simp add: py_lower_def)
  then show "py_in term (py_lower s)" unfolding py_in_iff by blast
qed

lemma blocked_terms_lower: "list_all lower_letters blocked_terms"
  by (simp add: blocked_terms_def lower_letters_def)

lemma blocked_iff:
  "list_ex (\<lambda>t. py_in t (py_lower s)) blocked_terms \<longleftrightarrow> has_blocked_term s"
  using blocked_terms_lower
  by (auto simp: has_blocked_term_def list_ex_iff list_all_iff py_in_lower_iff)

lemma str_int_500: "str_int MAX_PROMPT_LENGTH = ''500''"
  by code_simp

lemma str_int_3: "str_int MIN_PROMPT_WORDS = ''3''"
  by code_simp

section \<open>Validation\<close>

text \<open>
  Claim C7. \<open>validate_prompt\<close> rejects an empty or whitespace-only description as empty;
  otherwise it rejects a description of more than 500 characters as too long (so one of
  exactly 500 characters passes this check and one of 501 does not); otherwise it
  rejects one with fewer than 3 whitespace-separated words as too short; otherwise it
  rejects one that contains a blocked term in any casing as inappropriate content;
  otherwise it accepts. The checks apply in this order, and the right-hand side is
  written in the specification's words only.
\<close>

theorem validate_prompt_checks:
  "validate_prompt p =
     (if whitespace_only p then (False, ''Prompt cannot be empty'')
      else if length p > 500 then (False, ''Prompt too long (max 500 characters)'')
      else if count_words p < 3 then (False, ''Prompt too short (minimum 3 words)'')
      else if has_blocked_term p then (False, ''Prompt contains inappropriate content'')
      else (True, ''Valid prompt''))"
proof -
  have e: "(p = [] \<or> py_strip p = []) \<longleftrightarrow> whitespace_only p"
    using py_strip_Nil_iff [of p] by (auto simp: whitespace_only_def)
  show ?thesis
    unfolding validate_prompt_def e word_count_eq blocked_iff str_int_500 str_int_3 Let_def
    by (simp add: MAX_PROMPT_LENGTH_def MIN_PROMPT_WORDS_def)
qed

text \<open>
  The theorem at four inputs: a text of three words with a blocked term in mixed case,
  a text of two words, a text of 500 characters and the same text with one character
  more. The values of \<open>validate_prompt\<close> are computed; what the specification's words say
  about the inputs follows from the theorem.
\<close>

theorem validate_prompt_checks_witness:
  "validate_prompt ''a NuDe cat'' = (False, ''Prompt contains inappropriate content'')
   \<and> has_blocked_term ''a NuDe cat''
   \<and> validate_prompt ''two words'' = (False, ''Prompt too short (minimum 3 words)'')
   \<and> count_words ''two words'' < 3
   \<and> length (concat (replicate 125 ''abc '')) = 500
   \<and> validate_prompt (concat (replicate 125 ''abc '')) = (True, ''Valid prompt'')
   \<and> 3 \<le> count_words (concat (replicate 125 ''abc ''))
   \<and> validate_prompt (concat (replicate 125 ''abc '') @ ''d'')
       = (False, ''Prompt too long (max 500 characters)'')"
proof -
  have v1: "validate_prompt ''a NuDe cat'' = (False, ''Prompt contains inappropriate content'')"
    by code_simp
  have v2: "validate_prompt ''two words'' = (False, ''Prompt too short (minimum 3 words)'')"
    by code_simp
  have l3: "length (concat (replicate 125 ''abc '')) = 500"
    by code_simp
  have v3: "validate_prompt (concat (replicate 125 ''abc '')) = (True, ''Valid prompt'')"
    by code_simp
  have v4: "validate_prompt (concat (replicate 125 ''abc '') @ ''d'')
       = (False, ''Prompt too long (max 500 characters)'')"
    by code_simp
  have b1: "has_blocked_term ''a NuDe cat''"
    using v1 validate_prompt_checks [of "''a NuDe cat''"] by (simp split: if_splits)
  have c2: "count_words ''two words'' < 3"
    using v2 validate_prompt_checks [of "''two words''"] by (simp split: if_splits)
  have c3: "3 \<le> count_words (concat (replicate 125 ''abc ''))"
    using v3 validate_prompt_checks [of "concat (replicate 125 ''abc '')"]
    by (simp only: l3 split: if_splits) simp_all
  from v1 b1 v2 c2 l3 v3 c3 v4 show ?thesis by (intro conjI)
qed

section \<open>The fingerprint\<close>

text \<open>
  Claim C8. Changing exactly one of the five fields (description, exclusions, style,
  width, height) while the other four stay fixed changes the canonical delimited
  string, and with an injective digest it changes the fingerprint \<open>hash_key\<close>.
\<close>

theorem one_field_changes_fingerprint:
  "(p \<noteq> p' \<longrightarrow> cache_key p n s w h \<noteq> cache_key p' n s w h
       \<and> (inj (sha256_hexdigest P) \<longrightarrow> hash_key P p n s w h \<noteq> hash_key P p' n s w h)) \<and>
   (n \<noteq> n' \<longrightarrow> cache_key p n s w h \<noteq> cache_key p n' s w h
       \<and> (inj (sha256_hexdigest P) \<longrightarrow> hash_key P p n s w h \<noteq> hash_key P p n' s w h)) \<and>
   (s \<noteq> s' \<longrightarrow> cache_key p n s w h \<noteq> cache_key p n s' w h
       \<and> (inj (sha256_hexdigest P) \<longrightarrow> hash_key P p n s w h \<noteq> hash_key P p n s' w h)) \<and>
   (w \<noteq> w' \<longrightarrow> cache_key p n s w h \<noteq> cache_key p n s w' h
       \<and> (inj (sha256_hexdigest P) \<longrightarrow> hash_key P p n s w h \<noteq> hash_key P p n s w' h)) \<and>
   (h \<noteq> h' \<longrightarrow> cache_key p n s w h \<noteq> cache_key p n s w h'
       \<and> (inj (sha256_hexdigest P) \<longrightarrow> hash_key P p n s w h \<noteq> hash_key P p n s w h'))"
proof -
  have k: "(p \<noteq> p' \<longrightarrow> cache_key p n s w h \<noteq> cache_key p' n s w h) \<and>
      (n \<noteq> n' \<longrightarrow> cache_key p n s w h \<noteq> cache_key p n' s w h) \<and>
      (s \<noteq> s' \<longrightarrow> cache_key p n s w h \<noteq> cache_key p n s' w h) \<and>
      (w \<noteq> w' \<longrightarrow> cache_key p n s w h \<noteq> cache_key p n s w' h) \<and>
      (h \<noteq> h' \<longrightarrow> cache_key p n s w h \<noteq> cache_key p n s w h')"
    by (auto simp: cache_key_def dest: str_int_inj)
  from k show ?thesis unfolding hash_key_def by (simp add: inj_eq)
qed

theorem one_field_changes_fingerprint_witness:
  "inj (sha256_hexdigest demo_platform)
   \<and> hash_key demo_platform ''a red fox'' [] ''cartoon'' 512 512
       \<noteq> hash_key demo_platform ''a red dog'' [] ''cartoon'' 512 512
   \<and> hash_key demo_platform ''a red fox'' [] ''cartoon'' 512 512
       \<noteq> hash_key demo_platform ''a red fox'' ''blur'' ''cartoon'' 512 512
   \<and> hash_key demo_platform ''a red fox'' [] ''cartoon'' 512 512
       \<noteq> hash_key demo_platform ''a red fox'' [] ''sketch'' 512 512
   \<and> hash_key demo_platform ''a red fox'' [] ''cartoon'' 512 512
       \<noteq> hash_key demo_platform ''a red fox'' [] ''cartoon'' 256 512
   \<and> cache_key ''a red fox'' [] ''cartoon'' 512 512
       \<noteq> cache_key ''a red fox'' [] ''cartoon'' 512 768"
  using demo_digest_inj
    one_field_changes_fingerprint [of "''a red fox''" "''a red dog''" "[]" "''cartoon''" 512 512
      demo_platform "''blur''" "''sketch''" 256 768]
  by simp

text \<open>
  Claim C1, as amended. Two requests whose descriptions and exclusions contain no pipe
  character and that differ in at least one field have distinct canonical strings, and
  with an injective digest distinct fingerprints. (The style may contain pipes: the two
  numbers are read from the right.)
\<close>

theorem pipe_free_requests_distinct_fingerprints:
  assumes "CHR ''|'' \<notin> set p" and "CHR ''|'' \<notin> set n"
    and "CHR ''|'' \<notin> set p'" and "CHR ''|'' \<notin> set n'"
    and "(p, n, s, w, h) \<noteq> (p', n', s', w', h')"
  shows "cache_key p n s w h \<noteq> cache_key p' n' s' w' h'
     \<and> (inj (sha256_hexdigest P) \<longrightarrow> hash_key P p n s w h \<noteq> hash_key P p' n' s' w' h')"
proof -
  have k: "cache_key p n s w h \<noteq> cache_key p' n' s' w' h'"
    using cache_key_inj [OF assms(1) assms(3) assms(2) assms(4)] assms(5) by blast
  then show ?thesis unfolding hash_key_def by (auto dest: injD)
qed

theorem pipe_free_requests_distinct_fingerprints_witness:
  "CHR ''|'' \<notin> set ''a red fox'' \<and> CHR ''|'' \<notin> set ''blur''
   \<and> CHR ''|'' \<notin> set ''a red'' \<and> CHR ''|'' \<notin> set ''fox blur''
   \<and> (''a red fox'', ''blur'', ''cartoon'', 512::int, 512::int)
       \<noteq> (''a red'', ''fox blur'', ''sketch'', 256, 512)
   \<and> inj (sha256_hexdigest demo_platform)
   \<and> cache_key ''a red fox'' ''blur'' ''cartoon'' 512 512
       \<noteq> cache_key ''a red'' ''fox blur'' ''sketch'' 256 512
   \<and> hash_key demo_platform ''a red fox'' ''blur'' ''cartoon'' 512 512
       \<noteq> hash_key demo_platform ''a red'' ''fox blur'' ''sketch'' 256 512"
  using demo_digest_inj
    pipe_free_requests_distinct_fingerprints [of "''a red fox''" "''blur''" "''a red''" "''fox blur''"
      "''cartoon''" 512 512 "''sketch''" 256 512 demo_platform]
  by simp

text \<open>
  Claim C1 as it is stated fails: the fields are joined without escaping, so a pipe
  inside the description or the exclusions moves the field boundary. The two requests
  below differ in description and exclusions and have the same canonical string, hence
  the same fingerprint under every digest.
\<close>

theorem pipe_in_field_collides:
  "(''a|b'', []) \<noteq> (''a'', ''b|'')
   \<and> cache_key ''a|b'' [] ''cartoon'' 512 512 = cache_key ''a'' ''b|'' ''cartoon'' 512 512
   \<and> hash_key demo_platform ''a|b'' [] ''cartoon'' 512 512
       = hash_key demo_platform ''a'' ''b|'' ''cartoon'' 512 512"
  by (simp add: hash_key_def cache_key_def)

section \<open>The concrete platform, environment and states\<close>

lemma demo_platform_fields:
  "sha256_hexdigest demo_platform = hex_text"
  "gettempdir demo_platform = ''/tmp''"
  "url_quote demo_platform = (\<lambda>s. s)"
  "image_open demo_platform = demo_open"
  "png_bytes demo_platform = (\<lambda>i. png_magic @ i)"
  "enhance_contrast demo_platform = (\<lambda>f i. i)"
  "enhance_brightness demo_platform = (\<lambda>f i. i)"
  "filter_sharpen demo_platform = (\<lambda>i. i)"
  "filter_smooth demo_platform = (\<lambda>i. i)"
  by (simp_all add: demo_platform_def)

lemma demo_env_fields:
  "makedirs_error demo_env = None"
  "open_cached_fails demo_env = False"
  "remove_error demo_env = None"
  "http_get demo_env = (\<lambda>url. HttpOk (png_magic @ demo_image))"
  "save_result demo_env = Saved"
  "time_start demo_env = 10"
  "time_end demo_env = 12"
  by (simp_all add: demo_env_def)

lemma demo_open_png: "demo_open (png_magic @ i) = Inr i"
  by (simp add: demo_open_def png_magic_def)

lemma demo_open_empty: "demo_open [] = Inl ''cannot identify image file''"
  by (simp add: demo_open_def png_magic_def)

lemma world_corrupt_fields:
  "cache_dir_made world_corrupt"
  "files world_corrupt = [fox_file \<mapsto> []]"
  by (simp_all add: world_corrupt_def)

lemma fox_file_fold: "cache_file demo_platform ''a red fox'' [] ''cartoon'' 512 512 = fox_file"
  by (simp add: fox_file_def)

lemma png_sound_demo: "png_sound demo_platform"
  by (simp add: png_sound_def decodes_def demo_platform_fields demo_open_png)

lemma store_valid_empty: "store_valid P empty_world"
  by (simp add: store_valid_def empty_world_def)

section \<open>\<^verbatim>\<open>get_cache_path\<close>: what it returns, changes and raises\<close>




section \<open>\<^verbatim>\<open>generate_image\<close>: exceptions that leave it\<close>

text \<open>
  \<open>generate_image\<close> returns a tuple unless the cache directory is missing and cannot be
  created, or a cached file that does not open cannot be removed.
\<close>

lemma generate_image_returns:
  assumes "cache_dir_made W \<or> makedirs_error E = None" and "remove_error E = None"
  shows "\<exists>r. fst (generate_image P E W p n s w h) = Inr r"
  using assms
  by (auto simp: generate_image_def get_cache_path_def check_cache_def
      split: option.splits sum.splits prod.splits lookup.splits)

lemma generate_image_raises_iff:
  "(\<exists>e. fst (generate_image P E W p n s w h) = Inl e) \<longleftrightarrow>
     (\<not> cache_dir_made W \<and> makedirs_error E \<noteq> None)
     \<or> ((\<exists>b. files W (cache_file P p n s w h) = Some b
            \<and> (open_cached_fails E \<or> \<not> decodes P b)) \<and> remove_error E \<noteq> None)"
  by (auto simp: generate_image_def get_cache_path_def check_cache_def decodes_def
      split: option.splits sum.splits prod.splits lookup.splits)

lemma generate_image_imp_returns:
  assumes "cache_dir_made W \<or> makedirs_error E = None" and "remove_error E = None"
  shows "\<exists>r. fst (generate_image_imp P E W p n s w h enh) = Inr r"
  using assms
  by (auto simp: generate_image_imp_def get_cache_path_def check_cache_def
      split: option.splits sum.splits prod.splits lookup.splits)

text \<open>
  Claim C3 fails on the code. The request is (a red fox, no exclusions, cartoon, 512,
  512). First input: its cache file exists and is empty, so it does not open, and
  \<^verbatim>\<open>os.remove\<close> fails; the \<^verbatim>\<open>OSError\<close> raised inside the handler leaves
  \<open>generate_image\<close>. Second input: there is no cache directory and \<^verbatim>\<open>os.makedirs\<close> fails;
  the \<^verbatim>\<open>OSError\<close> of \<open>get_cache_path\<close>, called outside the \<^verbatim>\<open>try\<close>, leaves it too.
\<close>

theorem generate_image_propagates_exception:
  "files world_corrupt fox_file = Some []
   \<and> image_open demo_platform [] = Inl ''cannot identify image file''
   \<and> generate_image demo_platform (demo_env\<lparr>remove_error := Some ''Permission denied''\<rparr>)
        world_corrupt ''a red fox'' [] ''cartoon'' 512 512
      = (Inl (OSError ''Permission denied''), world_corrupt)
   \<and> generate_image demo_platform (demo_env\<lparr>makedirs_error := Some ''Read-only file system''\<rparr>)
        empty_world ''a red fox'' [] ''cartoon'' 512 512
      = (Inl (OSError ''Read-only file system''), empty_world)"
  by (simp add: generate_image_def get_cache_path_def check_cache_def fox_file_def [symmetric]
      world_corrupt_def empty_world_def demo_env_def demo_platform_fields demo_open_def png_magic_def)

section \<open>\<^verbatim>\<open>generate_image\<close>: a cached file that does not open\<close>




section \<open>\<^verbatim>\<open>generate_image\<close> twice\<close>

text \<open>
  Claim C6, as amended. Let no file be stored under the request's fingerprint. If the
  cache directory exists or can be created, the service answers with bytes that open as
  an image, the save completes, the cached file can be read at the second call, and the
  PNG written opens as the same image, then the first call returns that image with source
  \<^verbatim>\<open>api\<close> (fresh) and the second call returns the same image with source \<^verbatim>\<open>cache\<close>.
\<close>

theorem generate_twice_fresh_then_cache:
  assumes "files W (cache_file P p n s w h) = None"
    and "cache_dir_made W \<or> makedirs_error E1 = None"
    and "http_get E1 (request_url P STYLE_OPTIONS p n s w h) = HttpOk body"
    and "image_open P body = Inr img"
    and "save_result E1 = Saved"
    and "\<not> open_cached_fails E2"
    and "image_open P (png_bytes P img) = Inr img"
  shows "\<exists>W1 W2.
      generate_image P E1 W p n s w h
        = (Inr (Some img, ''api'', time_end E1 - time_start E1, ''Generated successfully''), W1)
      \<and> generate_image P E2 W1 p n s w h
        = (Inr (Some img, ''cache'', 0, ''Loaded from cache''), W2)"
  using assms
  by (auto simp: generate_image_def get_cache_path_def check_cache_def fetch_and_store_def
      split: option.splits sum.splits prod.splits lookup.splits)

theorem generate_twice_fresh_then_cache_witness:
  "files empty_world fox_file = None
   \<and> makedirs_error demo_env = None
   \<and> save_result demo_env = Saved
   \<and> \<not> open_cached_fails demo_env
   \<and> image_open demo_platform (png_bytes demo_platform demo_image) = Inr demo_image
   \<and> (\<exists>W1 W2.
      generate_image demo_platform demo_env empty_world ''a red fox'' [] ''cartoon'' 512 512
        = (Inr (Some demo_image, ''api'', 2, ''Generated successfully''), W1)
      \<and> generate_image demo_platform demo_env W1 ''a red fox'' [] ''cartoon'' 512 512
        = (Inr (Some demo_image, ''cache'', 0, ''Loaded from cache''), W2))"
proof -
  have a: "files empty_world (cache_file demo_platform ''a red fox'' [] ''cartoon'' 512 512) = None"
    by (simp add: empty_world_def)
  have b: "cache_dir_made empty_world \<or> makedirs_error demo_env = None"
    by (simp add: demo_env_fields)
  have c: "http_get demo_env (request_url demo_platform STYLE_OPTIONS ''a red fox'' [] ''cartoon'' 512 512)
      = HttpOk (png_magic @ demo_image)"
    by (simp add: demo_env_fields)
  have d: "image_open demo_platform (png_magic @ demo_image) = Inr demo_image"
    by (simp add: demo_platform_fields demo_open_png)
  have e: "save_result demo_env = Saved" by (simp add: demo_env_fields)
  have f: "\<not> open_cached_fails demo_env" by (simp add: demo_env_fields)
  have g: "image_open demo_platform (png_bytes demo_platform demo_image) = Inr demo_image"
    by (simp add: demo_platform_fields demo_open_png)
  from generate_twice_fresh_then_cache [OF a b c d e f g] a e f g
  show ?thesis by (simp add: demo_env_fields fox_file_fold)
qed

text \<open>
  Claim C6 as it is stated fails. Nothing is stored for the request, the service answers
  with a valid image, and the save fails: the first call returns an error tuple instead
  of a fresh image, and the second call, in an environment without failures, generates
  again (source \<^verbatim>\<open>api\<close>) instead of loading from the cache.
\<close>

theorem failed_save_gives_error_then_fresh:
  "files empty_world fox_file = None
   \<and> http_get (demo_env\<lparr>save_result := SaveFailed None ''No space left on device''\<rparr>)
        (request_url demo_platform STYLE_OPTIONS ''a red fox'' [] ''cartoon'' 512 512)
      = HttpOk (png_magic @ demo_image)
   \<and> image_open demo_platform (png_magic @ demo_image) = Inr demo_image
   \<and> fst (generate_image demo_platform
        (demo_env\<lparr>save_result := SaveFailed None ''No space left on device''\<rparr>)
        empty_world ''a red fox'' [] ''cartoon'' 512 512)
      = Inr (None, ''error'', 0, ''Unexpected error: No space left on device'')
   \<and> fst (generate_image demo_platform demo_env
        (snd (generate_image demo_platform
           (demo_env\<lparr>save_result := SaveFailed None ''No space left on device''\<rparr>)
           empty_world ''a red fox'' [] ''cartoon'' 512 512))
        ''a red fox'' [] ''cartoon'' 512 512)
      = Inr (Some demo_image, ''api'', 2, ''Generated successfully'')"
  by (simp add: generate_image_def get_cache_path_def check_cache_def fetch_and_store_def
      fox_file_fold empty_world_def demo_env_fields demo_platform_fields demo_open_png)

section \<open>The store under sequences of operations\<close>

lemma generate_image_store_valid:
  assumes "png_sound P" and "store_valid P W" and "save_is_atomic E"
  shows "store_valid P (snd (generate_image P E W p n s w h))"
  using assms
  by (auto simp: generate_image_def get_cache_path_def check_cache_def fetch_and_store_def
      store_valid_def png_sound_def save_is_atomic_def
      split: option.splits sum.splits prod.splits lookup.splits http_outcome.splits
        save_outcome.splits if_splits)

lemma generate_image_imp_store_valid:
  assumes "png_sound P" and "store_valid P W" and "save_is_atomic E"
  shows "store_valid P (snd (generate_image_imp P E W p n s w h enh))"
  using assms
  by (auto simp: generate_image_imp_def get_cache_path_def check_cache_def fetch_and_store_imp_def
      store_valid_def png_sound_def save_is_atomic_def Let_def
      split: option.splits sum.splits prod.splits lookup.splits http_outcome.splits
        save_outcome.splits if_splits)

lemma clear_loop_store_valid:
  "store_valid P W \<Longrightarrow> store_valid P (snd (clear_loop C dir names W k))"
proof (induction names arbitrary: W k)
  case Nil
  then show ?case by simp
next
  case (Cons f fs)
  have rm: "store_valid P (W\<lparr>files := (files W)(path_join dir f := None)\<rparr>)"
    using Cons.prems by (auto simp: store_valid_def)
  show ?case
    using Cons.IH [OF rm] Cons.IH [OF Cons.prems] Cons.prems
    by (simp add: Let_def split: option.splits)
qed

lemma clear_cache_store_valid:
  "store_valid P W \<Longrightarrow> store_valid P (snd (clear_cache P C W))"
  by (simp add: clear_cache_def clear_loop_store_valid split: sum.splits)

text \<open>
  Claim C2, as amended. Let the PNG encoder be sound, let every file of the store decode
  as an image at the start (the empty store does), and let every save of the sequence
  either complete or leave no file. Then after any sequence of \<open>generate_image\<close> calls
  (of either application) and \<open>clear_cache\<close> calls, whatever else fails in them, every
  file of the store decodes as an image.
\<close>

theorem store_stays_valid:
  assumes "png_sound P" and "store_valid P W" and "list_all op_save_is_atomic ops"
  shows "store_valid P (run_ops P ops W)"
  using assms(2,3)
proof (induction ops arbitrary: W)
  case Nil
  then show ?case by simp
next
  case (Cons x xs)
  have "store_valid P (run_op P x W)"
    using Cons.prems assms(1)
    by (cases x)
      (simp_all add: generate_image_store_valid generate_image_imp_store_valid
        clear_cache_store_valid)
  with Cons show ?case by simp
qed

theorem store_stays_valid_witness:
  "png_sound demo_platform
   \<and> store_valid demo_platform empty_world
   \<and> list_all op_save_is_atomic
        [Generate demo_env ''a red fox'' [] ''cartoon'' 512 512,
         GenerateImp (demo_env\<lparr>save_result := SaveFailed None ''No space left on device''\<rparr>)
           ''a blue bird'' [] ''sketch'' 256 256 True,
         ClearCache \<lparr>listdir_result = Inr [''x.png''], remove_error_at = (\<lambda>p. None)\<rparr>,
         Generate demo_env ''a red fox'' [] ''cartoon'' 512 512]
   \<and> store_valid demo_platform (run_ops demo_platform
        [Generate demo_env ''a red fox'' [] ''cartoon'' 512 512,
         GenerateImp (demo_env\<lparr>save_result := SaveFailed None ''No space left on device''\<rparr>)
           ''a blue bird'' [] ''sketch'' 256 256 True,
         ClearCache \<lparr>listdir_result = Inr [''x.png''], remove_error_at = (\<lambda>p. None)\<rparr>,
         Generate demo_env ''a red fox'' [] ''cartoon'' 512 512] empty_world)"
proof -
  have a: "list_all op_save_is_atomic
        [Generate demo_env ''a red fox'' [] ''cartoon'' 512 512,
         GenerateImp (demo_env\<lparr>save_result := SaveFailed None ''No space left on device''\<rparr>)
           ''a blue bird'' [] ''sketch'' 256 256 True,
         ClearCache \<lparr>listdir_result = Inr [''x.png''], remove_error_at = (\<lambda>p. None)\<rparr>,
         Generate demo_env ''a red fox'' [] ''cartoon'' 512 512]"
    by (simp add: save_is_atomic_def demo_env_fields)
  from store_stays_valid [OF png_sound_demo store_valid_empty a] a png_sound_demo store_valid_empty
  show ?thesis by blast
qed

text \<open>
  Claim C2 as it is stated fails: the save writes straight to the cache path, so it is
  not atomic. From the empty store, one call whose save fails after two bytes leaves
  these two bytes under the request's fingerprint, and they do not decode.
\<close>

theorem partial_write_stays_in_store:
  "png_sound demo_platform
   \<and> store_valid demo_platform empty_world
   \<and> files (run_ops demo_platform
        [Generate (demo_env\<lparr>save_result := SaveFailed (Some 2) ''No space left on device''\<rparr>)
           ''a red fox'' [] ''cartoon'' 512 512] empty_world) fox_file = Some [137, 80]
   \<and> \<not> decodes demo_platform [137, 80]
   \<and> \<not> store_valid demo_platform (run_ops demo_platform
        [Generate (demo_env\<lparr>save_result := SaveFailed (Some 2) ''No space left on device''\<rparr>)
           ''a red fox'' [] ''cartoon'' 512 512] empty_world)"
proof -
  let ?W = "run_ops demo_platform
        [Generate (demo_env\<lparr>save_result := SaveFailed (Some 2) ''No space left on device''\<rparr>)
           ''a red fox'' [] ''cartoon'' 512 512] empty_world"
  have "files ?W fox_file = Some (take 2 (png_magic @ demo_image))"
    by (simp add: generate_image_def get_cache_path_def check_cache_def fetch_and_store_def
        fox_file_fold empty_world_def demo_env_fields demo_platform_fields demo_open_png)
  then have f: "files ?W fox_file = Some [137, 80]"
    by (simp add: png_magic_def)
  have d: "\<not> decodes demo_platform [137, 80]"
    by (simp add: decodes_def demo_platform_fields demo_open_def png_magic_def)
  from f d have "\<not> store_valid demo_platform ?W"
    unfolding store_valid_def by blast
  with f d png_sound_demo store_valid_empty show ?thesis by blast
qed

section \<open>Batch generation\<close>

lemma batch_loop_prompts:
  "batch_loop P Es st w h i ps acc W = (Inr rs, W')
     \<Longrightarrow> map entry_prompt rs = map entry_prompt acc @ ps"
proof (induction ps arbitrary: i acc W)
  case Nil
  then show ?case by simp
next
  case (Cons q qs)
  show ?case
  proof (cases "generate_image_imp P (Es i) W q [] st w h False")
    case (Pair r W1)
    show ?thesis
    proof (cases r)
      case (Inl e)
      with Pair Cons.prems show ?thesis by simp
    next
      case (Inr env)
      obtain img src el msg where env: "env = (img, src, el, msg)" by (cases env) auto
      show ?thesis
      proof (cases img)
        case None
        with Pair Inr env Cons.prems
        have "batch_loop P Es st w h (Suc i) qs (acc @ [BatchFailure q msg]) W1 = (Inr rs, W')"
          by simp
        from Cons.IH [OF this] show ?thesis by simp
      next
        case (Some im)
        with Pair Inr env Cons.prems
        have "batch_loop P Es st w h (Suc i) qs (acc @ [BatchSuccess q (png_bytes P im)]) W1
            = (Inr rs, W')"
          by simp
        from Cons.IH [OF this] show ?thesis by simp
      qed
    qed
  qed
qed

lemma batch_loop_returns:
  assumes "\<forall>j. makedirs_error (Es j) = None \<and> remove_error (Es j) = None"
  shows "\<exists>rs W'. batch_loop P Es st w h i ps acc W = (Inr rs, W')"
proof (induction ps arbitrary: i acc W)
  case Nil
  show ?case by simp
next
  case (Cons q qs)
  from assms have "\<exists>r. fst (generate_image_imp P (Es i) W q [] st w h False) = Inr r"
    by (intro generate_image_imp_returns) auto
  then obtain img src el msg W1
    where g: "generate_image_imp P (Es i) W q [] st w h False = (Inr (img, src, el, msg), W1)"
    by (metis prod.collapse)
  show ?case
    using g Cons.IH by (cases img) auto
qed

text \<open>
  Where no call of \<open>generate_image\<close> raises (no directory creation and no removal fails),
  the loop gives one entry per prompt, in the order of the prompts, whether the entries
  are images or errors.
\<close>

lemma batch_one_result_per_prompt:
  assumes "\<forall>j. makedirs_error (Es j) = None \<and> remove_error (Es j) = None"
  shows "\<exists>rs W'. batch_loop P Es st w h 0 ps [] W = (Inr rs, W')
           \<and> map entry_prompt rs = ps \<and> length rs = length ps"
proof -
  from batch_loop_returns [OF assms]
  obtain rs W' where l: "batch_loop P Es st w h 0 ps [] W = (Inr rs, W')" by blast
  from batch_loop_prompts [OF l] have m: "map entry_prompt rs = ps" by simp
  from arg_cong [OF m, of length] have "length rs = length ps" by simp
  with l m show ?thesis by blast
qed




lemma read_two_prompts: "read_batch_prompts two_prompts = [''a red fox'', ''a blue bird'']"
  by code_simp

text \<open>
  Claim C9 fails on the code. The text area holds two prompts; the cache file of the
  first exists, does not open and cannot be removed. \<open>generate_image\<close> raises for the
  first prompt, the loop has no handler, and the batch ends with the exception: no entry
  for the first prompt and none for the second, which is never processed.
\<close>

theorem batch_aborts_on_exception:
  "read_batch_prompts two_prompts = [''a red fox'', ''a blue bird'']
   \<and> files world_corrupt fox_file = Some []
   \<and> batch_tab demo_platform (\<lambda>i. demo_env\<lparr>remove_error := Some ''Permission denied''\<rparr>)
        world_corrupt two_prompts ''cartoon'' 512 512 True
      = (Some (Inl (OSError ''Permission denied'')), world_corrupt)"
  by (simp add: batch_tab_def render_batch_generation_def read_two_prompts
      generate_image_imp_def get_cache_path_def check_cache_def fox_file_fold
      world_corrupt_fields demo_env_fields demo_platform_fields demo_open_empty)




end
